theory Spec2Isabelle
  imports Main
begin

section \<open>A shallow embedding of the cron expression parser\<close>

text \<open>
  The parser (\<^verbatim>\<open>parser.js\<close>) expands each of the five time fields of a cron line into
  the list of values it matches. The embedding follows the source function by function.

  \<^item> A JavaScript string is a \<open>string\<close>; each \<open>char\<close> stands for one code unit below 256.
  \<^item> A JavaScript number is a double. The numbers of the parser are integers or
    infinite, so a \<open>number\<close> is \<open>Num k\<close> for the double of the integer value \<open>k\<close>,
    \<open>Infinity\<close> or \<open>NegInfinity\<close>, and \<open>NaN\<close> is \<open>None\<close> of \<open>number option\<close>. Reading a
    number (\<^verbatim>\<open>parseInt\<close>) and adding two numbers (\<^verbatim>\<open>i += step\<close>) round to the nearest
    double, ties to even, as the language does; from \<open>2 ^ 53\<close> on not every integer is a
    double. Minus zero is \<open>Num 0\<close>: the parser never lets the two zeros be told apart.
  \<^item> A thrown \<^verbatim>\<open>Error\<close> is a value \<open>Inl e\<close> of the sum \<open>error + 'a\<close>, one constructor
    of \<open>error\<close> for each \<^verbatim>\<open>throw\<close> of the source.
  \<^item> The \<^verbatim>\<open>for\<close> loop of \<^verbatim>\<open>generateRange\<close> may run forever (a step that is not positive,
    or a sum that rounds back to the number it started from), so it is a partial function
    into \<open>option\<close>: \<open>None\<close> means that the call does not return. Every function that calls
    it returns an \<open>option\<close> as well.
  \<^item> Arrays are lists of any length. In the language an array holds at most \<open>2 ^ 32 - 1\<close>
    elements and a \<^verbatim>\<open>push\<close> beyond that throws a \<^verbatim>\<open>RangeError\<close>; a loop of the source that
    only this limit would end is, in the embedding, a loop that does not return.
\<close>

subsection \<open>Errors and results\<close>

datatype error =
    InvalidValue                \<comment> \<open>\<^verbatim>\<open>Invalid value: ... Must be between ...\<close>\<close>
  | InvalidStepValue            \<comment> \<open>\<^verbatim>\<open>Invalid step value: ...\<close>\<close>
  | InvalidRangeInStep          \<comment> \<open>\<^verbatim>\<open>Invalid range in step expression: ...\<close>\<close>
  | InvalidStartInStep          \<comment> \<open>\<^verbatim>\<open>Invalid start value in step expression: ...\<close>\<close>
  | InvalidRange                \<comment> \<open>\<^verbatim>\<open>Invalid range: ...\<close>\<close>
  | RangeOutOfBounds            \<comment> \<open>\<^verbatim>\<open>Range ... is out of bounds (...)\<close>\<close>
  | CronStringRequired          \<comment> \<open>\<^verbatim>\<open>Cron string is required\<close>\<close>
  | InvalidCronExpression       \<comment> \<open>\<^verbatim>\<open>Invalid cron expression. Expected format: ...\<close>\<close>
  | FailedToParse error         \<comment> \<open>\<^verbatim>\<open>Failed to parse cron expression: ...\<close>, wrapping the cause\<close>

type_synonym 'a result = "(error + 'a) option"

definition throw :: "error \<Rightarrow> 'a result" where
  "throw e = Some (Inl e)"

definition return :: "'a \<Rightarrow> 'a result" where
  "return v = Some (Inr v)"

definition bind_result :: "'a result \<Rightarrow> ('a \<Rightarrow> 'b result) \<Rightarrow> 'b result" where
  "bind_result r f = (case r of None \<Rightarrow> None | Some (Inl e) \<Rightarrow> Some (Inl e) | Some (Inr v) \<Rightarrow> f v)"

subsection \<open>Numbers\<close>

datatype number = NegInfinity | Num int | Infinity

text \<open>The order of the numbers, which \<^verbatim>\<open><\<close>, \<^verbatim>\<open><=\<close> and \<^verbatim>\<open>>\<close> decide when no operand is \<open>NaN\<close>.\<close>

fun number_le :: "number \<Rightarrow> number \<Rightarrow> bool" where
  "number_le NegInfinity y = True"
| "number_le (Num a) NegInfinity = False"
| "number_le (Num a) (Num b) = (a \<le> b)"
| "number_le (Num a) Infinity = True"
| "number_le Infinity NegInfinity = False"
| "number_le Infinity (Num b) = False"
| "number_le Infinity Infinity = True"

instantiation number :: linorder
begin

definition less_eq_number :: "number \<Rightarrow> number \<Rightarrow> bool" where
  "less_eq_number x y = number_le x y"

definition less_number :: "number \<Rightarrow> number \<Rightarrow> bool" where
  "less_number x y = (number_le x y \<and> \<not> number_le y x)"

instance
proof
  fix x y z :: number
  show "(x < y) = (x \<le> y \<and> \<not> y \<le> x)"
    by (simp add: less_eq_number_def less_number_def)
  show "x \<le> x"
    by (cases x) (simp_all add: less_eq_number_def)
  show "x \<le> y \<Longrightarrow> y \<le> z \<Longrightarrow> x \<le> z"
    by (cases x; cases y; cases z) (simp_all add: less_eq_number_def)
  show "x \<le> y \<Longrightarrow> y \<le> x \<Longrightarrow> x = y"
    by (cases x; cases y) (simp_all add: less_eq_number_def)
  show "x \<le> y \<or> y \<le> x"
    by (cases x; cases y) (auto simp: less_eq_number_def)
qed

end

text \<open>
  The double nearest to an integer, ties to even: an integer below \<open>2 ^ 53\<close> in magnitude is
  a double; a larger one keeps its 53 leading bits, rounded; from \<open>2 ^ 1024\<close> on the result
  is infinite.
\<close>

function bit_length :: "int \<Rightarrow> nat" where
  "bit_length a = (if a \<le> 0 then 0 else Suc (bit_length (a div 2)))"
  by pat_completeness auto
termination
  by (relation "measure nat") auto

declare bit_length.simps [simp del]

definition to_number :: "int \<Rightarrow> number" where
  "to_number x =
     (let a = \<bar>x\<bar>
      in if a < 2 ^ 53 then Num x
         else
           (let e = bit_length a - 53;
                q = a div 2 ^ e;
                r = a mod 2 ^ e;
                half = 2 ^ (e - 1);
                q' = (if half < r \<or> (r = half \<and> odd q) then q + 1 else q);
                y = q' * 2 ^ e
            in if 2 ^ 1024 \<le> y then (if x < 0 then NegInfinity else Infinity)
               else Num (if x < 0 then - y else y)))"

text \<open>\<^verbatim>\<open>a + b\<close> on numbers; the sum of the two infinities is \<open>NaN\<close>.\<close>

fun js_add :: "number \<Rightarrow> number \<Rightarrow> number option" where
  "js_add (Num a) (Num b) = Some (to_number (a + b))"
| "js_add Infinity NegInfinity = None"
| "js_add NegInfinity Infinity = None"
| "js_add Infinity y = Some Infinity"
| "js_add x Infinity = Some Infinity"
| "js_add NegInfinity y = Some NegInfinity"
| "js_add x NegInfinity = Some NegInfinity"

subsection \<open>The string primitives of the language\<close>

text \<open>
  White space as \<^verbatim>\<open>String.prototype.trim\<close>, \<^verbatim>\<open>parseInt\<close> and the regular expression
  class \<^verbatim>\<open>\s\<close> understand it, among the code units below 256: TAB, LF, VT, FF, CR, SP
  and NBSP.
\<close>

definition isWhiteSpace :: "char \<Rightarrow> bool" where
  "isWhiteSpace c \<longleftrightarrow>
     c = CHR 0x09 \<or> c = CHR 0x0A \<or> c = CHR 0x0B \<or> c = CHR 0x0C \<or> c = CHR 0x0D
     \<or> c = CHR '' '' \<or> c = CHR 0xA0"

definition trim :: "string \<Rightarrow> string" where
  "trim s = rev (dropWhile isWhiteSpace (rev (dropWhile isWhiteSpace s)))"

text \<open>\<^verbatim>\<open>s.split(c)\<close> for a separator of one character: never empty, \<^verbatim>\<open>"".split(c)\<close> is \<^verbatim>\<open>[""]\<close>.\<close>

fun js_split :: "char \<Rightarrow> string \<Rightarrow> string list" where
  "js_split c [] = [[]]"
| "js_split c (x # xs) =
     (if x = c then [] # js_split c xs
      else (case js_split c xs of [] \<Rightarrow> [[x]] | p # ps \<Rightarrow> (x # p) # ps))"

text \<open>\<^verbatim>\<open>xs.join(sep)\<close>.\<close>

fun js_join :: "string \<Rightarrow> string list \<Rightarrow> string" where
  "js_join sep [] = []"
| "js_join sep [x] = x"
| "js_join sep (x # y # ys) = x @ sep @ js_join sep (y # ys)"

text \<open>
  \<^verbatim>\<open>s.split(/\s+/)\<close>: the pieces between maximal runs of white space. A run at the start
  or at the end of the string leaves an empty piece there, and the empty string gives one
  empty piece.
\<close>

function splitWhitespace_from :: "string \<Rightarrow> string \<Rightarrow> string list" where
  "splitWhitespace_from cur [] = [cur]"
| "splitWhitespace_from cur (c # cs) =
     (if isWhiteSpace c then cur # splitWhitespace_from [] (dropWhile isWhiteSpace cs)
      else splitWhitespace_from (cur @ [c]) cs)"
  by pat_completeness auto
termination
  by (relation "measure (\<lambda>(cur, s). length s)")
     (auto simp: le_imp_less_Suc length_dropWhile_le)

definition splitWhitespace :: "string \<Rightarrow> string list" where
  "splitWhitespace s = splitWhitespace_from [] s"

text \<open>
  \<^verbatim>\<open>parseInt(s, 10)\<close>: leading white space is skipped, one sign is read, then the longest
  run of decimal digits; whatever follows is ignored. No digit at all gives \<open>NaN\<close>. The
  result is the double nearest to the integer that the digits write (the language lets an
  implementation drop digits after the twentieth; the embedding reads them all).
\<close>

definition digitValue :: "char \<Rightarrow> int option" where
  "digitValue c = map_of (zip ''0123456789'' [0, 1, 2, 3, 4, 5, 6, 7, 8, 9]) c"

definition isDigit :: "char \<Rightarrow> bool" where
  "isDigit c \<longleftrightarrow> digitValue c \<noteq> None"

definition decimalValue :: "string \<Rightarrow> int" where
  "decimalValue Z = foldl (\<lambda>acc c. case digitValue c of None \<Rightarrow> acc | Some d \<Rightarrow> acc * 10 + d) 0 Z"

definition parseInt :: "string \<Rightarrow> number option" where
  "parseInt inputString =
     (let S = dropWhile isWhiteSpace inputString;
          sign = (if S \<noteq> [] \<and> hd S = CHR ''-'' then - 1 else 1);
          S' = (if S \<noteq> [] \<and> (hd S = CHR ''+'' \<or> hd S = CHR ''-'') then tl S else S);
          Z = takeWhile isDigit S'
      in if Z = [] then None else Some (to_number (sign * decimalValue Z)))"

text \<open>
  An array pattern \<^verbatim>\<open>const [a, b] = parts\<close> reads \<^verbatim>\<open>undefined\<close> where the array is too
  short, and \<^verbatim>\<open>parseInt\<close> first turns its argument into a string.
\<close>

definition element :: "string list \<Rightarrow> nat \<Rightarrow> string option" where
  "element parts i = (if i < length parts then Some (parts ! i) else None)"

text \<open>The first piece of a split always exists, since \<^verbatim>\<open>split\<close> never returns an empty array.\<close>

definition first :: "string list \<Rightarrow> string" where
  "first parts = (case parts of [] \<Rightarrow> [] | p # _ \<Rightarrow> p)"

definition toString :: "string option \<Rightarrow> string" where
  "toString v = (case v of None \<Rightarrow> ''undefined'' | Some s \<Rightarrow> s)"

subsection \<open>generateRange\<close>

text \<open>
  The loop variable \<open>i\<close> may become \<open>NaN\<close> (\<open>None\<close>); then \<^verbatim>\<open>i <= end\<close> is false and the loop
  ends.
\<close>

partial_function (option) generateRange_loop ::
    "number option \<Rightarrow> number \<Rightarrow> number \<Rightarrow> number list \<Rightarrow> number list option" where
  "generateRange_loop i en step result =
     (case i of
        None \<Rightarrow> Some result
      | Some v \<Rightarrow>
          if v \<le> en then generateRange_loop (js_add v step) en step (result @ [v])
          else Some result)"

declare generateRange_loop.simps [code]

definition generateRange :: "number \<Rightarrow> number \<Rightarrow> number \<Rightarrow> number list option" where
  "generateRange start en step = generateRange_loop (Some start) en step []"

subsection \<open>parseStepValue and parseRange\<close>

definition parseStepValue :: "string \<Rightarrow> number \<Rightarrow> number \<Rightarrow> number list result" where
  "parseStepValue expression mn mx =
     (let parts = js_split CHR ''/'' expression;
          range = first parts;
          step = element parts 1
      in case parseInt (toString step) of
           None \<Rightarrow> throw InvalidStepValue
         | Some stepValue \<Rightarrow>
             if stepValue \<le> Num 0 then throw InvalidStepValue
             else if range \<noteq> ''*'' then
               (if CHR ''-'' \<in> set range then
                  (let bounds = js_split CHR ''-'' range
                   in case (parseInt (toString (element bounds 0)),
                            parseInt (toString (element bounds 1))) of
                        (Some rangeStart, Some rangeEnd) \<Rightarrow>
                          map_option Inr (generateRange rangeStart rangeEnd stepValue)
                      | _ \<Rightarrow> throw InvalidRangeInStep)
                else
                  (case parseInt range of
                     None \<Rightarrow> throw InvalidStartInStep
                   | Some start \<Rightarrow> map_option Inr (generateRange start mx stepValue)))
             else map_option Inr (generateRange mn mx stepValue))"

definition parseRange :: "string \<Rightarrow> number \<Rightarrow> number \<Rightarrow> number list result" where
  "parseRange expression mn mx =
     (let parts = js_split CHR ''-'' expression
      in case (parseInt (toString (element parts 0)), parseInt (toString (element parts 1))) of
           (Some start, Some en) \<Rightarrow>
             if start < mn \<or> en > mx \<or> start > en then throw RangeOutOfBounds
             else map_option Inr (generateRange start en (Num 1))
         | _ \<Rightarrow> throw InvalidRange)"

subsection \<open>parseField and parseList\<close>

text \<open>
  The \<^verbatim>\<open>Set\<close> of \<^verbatim>\<open>parseList\<close> keeps its elements in the order of their first insertion;
  \<^verbatim>\<open>Array.from(values).sort((a, b) => a - b)\<close> then sorts them by value.
\<close>

definition set_add :: "number list \<Rightarrow> number \<Rightarrow> number list" where
  "set_add values v = (if v \<in> set values then values else values @ [v])"

text \<open>
  The body of the loop over the parts, given the outcome of \<^verbatim>\<open>parseField\<close> on each part:
  the first part that throws (or does not return) ends the loop.
\<close>

fun addParts :: "number list result list \<Rightarrow> number list \<Rightarrow> number list result" where
  "addParts [] values = return values"
| "addParts (r # rs) values =
     (case r of
        None \<Rightarrow> None
      | Some (Inl e) \<Rightarrow> Some (Inl e)
      | Some (Inr parsedValues) \<Rightarrow> addParts rs (foldl set_add values parsedValues))"

lemma js_split_no_separator:
  "p \<in> set (js_split c s) \<Longrightarrow> c \<notin> set p"
  by (induction s arbitrary: p) (auto split: if_splits list.splits)

lemma set_trim_subset: "set (trim s) \<subseteq> set s"
proof
  fix x
  assume "x \<in> set (trim s)"
  then have "x \<in> set (rev (dropWhile isWhiteSpace s))"
    unfolding trim_def by (auto dest: set_dropWhileD)
  then show "x \<in> set s"
    by (auto dest: set_dropWhileD)
qed

function parseField :: "string \<Rightarrow> number \<Rightarrow> number \<Rightarrow> number list result"
  and parseList :: "string \<Rightarrow> number \<Rightarrow> number \<Rightarrow> number list result" where
  "parseField expression mn mx =
     (if expression = ''*'' then map_option Inr (generateRange mn mx (Num 1))
      else if CHR ''/'' \<in> set expression then parseStepValue expression mn mx
      else if CHR ''-'' \<in> set expression \<and> CHR '','' \<notin> set expression
        then parseRange expression mn mx
      else if CHR '','' \<in> set expression then parseList expression mn mx
      else (case parseInt expression of
              None \<Rightarrow> throw InvalidValue
            | Some v \<Rightarrow> if v < mn \<or> v > mx then throw InvalidValue else return [v]))"
| "parseList expression mn mx =
     (let parts = js_split CHR '','' expression
      in bind_result (addParts (map (\<lambda>part. parseField (trim part) mn mx) parts) [])
           (\<lambda>values. return (sort values)))"
  by pat_completeness auto
termination
proof (relation "measure (\<lambda>x. case x of
          Inl (e, mn, mx) \<Rightarrow> (if CHR '','' \<in> set e then 3 else 1)
        | Inr (e, mn, mx) \<Rightarrow> 2)", goal_cases)
  case 1
  show ?case by simp
next
  case (2 expression mn mx)
  then show ?case by simp
next
  case (3 expression mn mx parts part)
  then have "CHR '','' \<notin> set part"
    using js_split_no_separator by metis
  then have "CHR '','' \<notin> set (trim part)"
    using set_trim_subset by blast
  then show ?case by simp
qed

subsection \<open>parseCronExpression\<close>

record field_config =
  cfg_min :: number
  cfg_max :: number
  cfg_name :: string

record FIELD_CONFIG_type =
  cfg_minute :: field_config
  cfg_hour :: field_config
  cfg_dayOfMonth :: field_config
  cfg_month :: field_config
  cfg_dayOfWeek :: field_config

definition FIELD_CONFIG :: FIELD_CONFIG_type where
  "FIELD_CONFIG = \<lparr>
     cfg_minute = \<lparr> cfg_min = Num 0, cfg_max = Num 59, cfg_name = ''minute'' \<rparr>,
     cfg_hour = \<lparr> cfg_min = Num 0, cfg_max = Num 23, cfg_name = ''hour'' \<rparr>,
     cfg_dayOfMonth = \<lparr> cfg_min = Num 1, cfg_max = Num 31, cfg_name = ''day of month'' \<rparr>,
     cfg_month = \<lparr> cfg_min = Num 1, cfg_max = Num 12, cfg_name = ''month'' \<rparr>,
     cfg_dayOfWeek = \<lparr> cfg_min = Num 0, cfg_max = Num 6, cfg_name = ''day of week'' \<rparr> \<rparr>"

text \<open>The values a caller may pass for \<^verbatim>\<open>cronString\<close>, as far as the guard tells them apart.\<close>

datatype js_value =
    JSUndefined
  | JSNull
  | JSBoolean bool
  | JSNumber "number option"
  | JSString string
  | JSObject

fun falsy :: "js_value \<Rightarrow> bool" where
  "falsy JSUndefined = True"
| "falsy JSNull = True"
| "falsy (JSBoolean b) = (\<not> b)"
| "falsy (JSNumber n) = (n = None \<or> n = Some (Num 0))"
| "falsy (JSString s) = (s = [])"
| "falsy JSObject = False"

fun typeof :: "js_value \<Rightarrow> string" where
  "typeof JSUndefined = ''undefined''"
| "typeof JSNull = ''object''"
| "typeof (JSBoolean b) = ''boolean''"
| "typeof (JSNumber n) = ''number''"
| "typeof (JSString s) = ''string''"
| "typeof JSObject = ''object''"

record parsed_cron =
  minute :: "number list"
  hour :: "number list"
  dayOfMonth :: "number list"
  month :: "number list"
  dayOfWeek :: "number list"
  command :: string

definition catch_wrap :: "'a result \<Rightarrow> 'a result" where
  "catch_wrap r = (case r of Some (Inl e) \<Rightarrow> Some (Inl (FailedToParse e)) | _ \<Rightarrow> r)"

definition parseCronExpression :: "js_value \<Rightarrow> parsed_cron result" where
  "parseCronExpression cronString =
     (if falsy cronString \<or> typeof cronString \<noteq> ''string'' then throw CronStringRequired
      else case cronString of
        JSString s \<Rightarrow>
          (let parts = splitWhitespace (trim s)
           in if length parts < 6 then throw InvalidCronExpression
              else case parts of
                minuteE # hourE # dayOfMonthE # monthE # dayOfWeekE # commandParts \<Rightarrow>
                  (let command = js_join '' '' commandParts
                   in catch_wrap
                     (bind_result (parseField minuteE (cfg_min (cfg_minute FIELD_CONFIG)) (cfg_max (cfg_minute FIELD_CONFIG))) (\<lambda>mi.
                      bind_result (parseField hourE (cfg_min (cfg_hour FIELD_CONFIG)) (cfg_max (cfg_hour FIELD_CONFIG))) (\<lambda>ho.
                      bind_result (parseField dayOfMonthE (cfg_min (cfg_dayOfMonth FIELD_CONFIG)) (cfg_max (cfg_dayOfMonth FIELD_CONFIG))) (\<lambda>dm.
                      bind_result (parseField monthE (cfg_min (cfg_month FIELD_CONFIG)) (cfg_max (cfg_month FIELD_CONFIG))) (\<lambda>mo.
                      bind_result (parseField dayOfWeekE (cfg_min (cfg_dayOfWeek FIELD_CONFIG)) (cfg_max (cfg_dayOfWeek FIELD_CONFIG))) (\<lambda>dw.
                      return \<lparr> minute = mi, hour = ho, dayOfMonth = dm, month = mo,
                               dayOfWeek = dw, command = command \<rparr>)))))))
              | _ \<Rightarrow> throw InvalidCronExpression)
      | _ \<Rightarrow> throw CronStringRequired)"

declare parseField.simps [simp del] parseList.simps [simp del]

subsection \<open>The sequences the specification speaks of\<close>

text \<open>
  The values \<open>start\<close>, \<open>start + n\<close>, \<open>start + 2n\<close>, ... that do not exceed \<open>en\<close>, in
  this order. Lemma \<open>set_arith_seq\<close> below shows that these are all of them.
\<close>

definition arith_seq :: "int \<Rightarrow> int \<Rightarrow> int \<Rightarrow> int list" where
  "arith_seq start en n = map (\<lambda>k. start + int k * n) [0 ..< nat ((en - start) div n + 1)]"

text \<open>
  The sorted, deduplicated union of the expansions of the elements of a list. If the
  expansion of an element fails, the first such failure is the outcome.
\<close>

definition succeeded :: "'a result \<Rightarrow> bool" where
  "succeeded r = (case r of Some (Inr v) \<Rightarrow> True | _ \<Rightarrow> False)"

definition values_of :: "number list result \<Rightarrow> number list" where
  "values_of r = (case r of Some (Inr vs) \<Rightarrow> vs | _ \<Rightarrow> [])"

definition sorted_union :: "number list result list \<Rightarrow> number list result" where
  "sorted_union rs =
     (case find (\<lambda>r. \<not> succeeded r) rs of
        Some r \<Rightarrow> (case r of Some (Inl e) \<Rightarrow> Some (Inl e) | _ \<Rightarrow> None)
      | None \<Rightarrow> Some (Inr (sort (remdups (concat (map values_of rs))))))"

section \<open>Properties\<close>

subsection \<open>Numbers\<close>

lemma number_order [simp]:
  "Num a \<le> Num b \<longleftrightarrow> a \<le> b"
  "Num a < Num b \<longleftrightarrow> a < b"
  "Num a \<le> Infinity" "Num a < Infinity" "NegInfinity \<le> x" "x \<le> Infinity"
  "NegInfinity < Num a" "\<not> Infinity \<le> Num a" "\<not> Infinity < x" "\<not> Num a \<le> NegInfinity"
  "\<not> x < NegInfinity"
  by (cases x; auto simp: less_eq_number_def less_number_def)+

lemma to_number_exact:
  assumes "\<bar>x\<bar> \<le> 2 ^ 53"
  shows "to_number x = Num x"
proof (cases "\<bar>x\<bar> < 2 ^ 53")
  case True
  then show ?thesis by (simp add: to_number_def)
next
  case False
  then have "\<bar>x\<bar> = 9007199254740992"
    using assms by simp
  then have "x = 9007199254740992 \<or> x = - 9007199254740992"
    by linarith
  moreover have "to_number 9007199254740992 = Num 9007199254740992" by code_simp
  moreover have "to_number (- 9007199254740992) = Num (- 9007199254740992)" by code_simp
  ultimately show ?thesis by blast
qed

subsection \<open>generateRange on numbers that add exactly\<close>

lemma arith_seq_Nil: "0 < n \<Longrightarrow> en < start \<Longrightarrow> arith_seq start en n = []"
proof -
  assume n: "0 < n" and lt: "en < start"
  then have "(en - start) div n < 0"
    by (simp add: div_neg_pos_less0)
  then show ?thesis by (simp add: arith_seq_def)
qed

lemma arith_seq_Cons:
  assumes "0 < n" "start \<le> en"
  shows "arith_seq start en n = start # arith_seq (start + n) en n"
proof -
  have d: "(en - start) div n = (en - (start + n)) div n + 1"
  proof -
    have "(en - (start + n) + n) div n = (en - (start + n)) div n + 1"
      by (rule div_add_self2) (use assms in simp)
    moreover have "en - (start + n) + n = en - start" by simp
    ultimately show ?thesis by simp
  qed
  have nonneg: "0 \<le> (en - (start + n)) div n + 1"
  proof -
    have "0 \<le> (en - start) div n" using assms by (simp add: pos_imp_zdiv_nonneg_iff)
    then show ?thesis using d by simp
  qed
  have "nat ((en - start) div n + 1) = Suc (nat ((en - (start + n)) div n + 1))"
    using d nonneg by simp
  then show ?thesis
    by (simp add: arith_seq_def map_upt_Suc algebra_simps del: upt_Suc)
qed

lemma int_le_div_iff:
  assumes "0 < (n::int)"
  shows "k \<le> d div n \<longleftrightarrow> k * n \<le> d"
proof
  assume "k \<le> d div n"
  then have "k * n \<le> (d div n) * n"
    using assms by (simp add: mult_right_mono)
  moreover have "(d div n) * n + d mod n = d" by simp
  moreover have "0 \<le> d mod n" using assms by simp
  ultimately show "k * n \<le> d" by linarith
next
  assume "k * n \<le> d"
  then have "(k * n) div n \<le> d div n"
    using assms by (rule zdiv_mono1)
  moreover have "(k * n) div n = k" using assms by simp
  ultimately show "k \<le> d div n" by simp
qed

lemma set_arith_seq:
  assumes "0 < n"
  shows "set (arith_seq start en n) = {v. \<exists>k. v = start + int k * n \<and> v \<le> en}"
proof -
  have bound: "k < nat ((en - start) div n + 1) \<longleftrightarrow> start + int k * n \<le> en" for k
  proof -
    have "k < nat ((en - start) div n + 1) \<longleftrightarrow> int k < (en - start) div n + 1"
      by (rule zless_nat_eq_int_zless)
    also have "\<dots> \<longleftrightarrow> int k \<le> (en - start) div n" by linarith
    also have "\<dots> \<longleftrightarrow> int k * n \<le> en - start"
      using assms by (rule int_le_div_iff)
    also have "\<dots> \<longleftrightarrow> start + int k * n \<le> en" by linarith
    finally show ?thesis .
  qed
  have "set (arith_seq start en n)
          = (\<lambda>k. start + int k * n) ` {k. k < nat ((en - start) div n + 1)}"
    by (simp add: arith_seq_def atLeast0LessThan lessThan_def)
  also have "\<dots> = (\<lambda>k. start + int k * n) ` {k. start + int k * n \<le> en}"
    by (simp only: bound)
  also have "\<dots> = {v. \<exists>k. v = start + int k * n \<and> v \<le> en}"
    by blast
  finally show ?thesis .
qed

lemma arith_seq_one: "arith_seq a b 1 = [a..b]"
proof (induction "nat (b - a + 1)" arbitrary: a rule: less_induct)
  case less
  show ?case
  proof (cases "a \<le> b")
    case True
    have "nat (b - (a + 1) + 1) < nat (b - a + 1)" using True by simp
    then have "arith_seq (a + 1) b 1 = [a + 1..b]" using less.hyps by blast
    then show ?thesis using True by (simp add: arith_seq_Cons upto_rec1)
  next
    case False
    then show ?thesis by (simp add: arith_seq_Nil)
  qed
qed

lemma generateRange_loop_exact:
  assumes "0 < n" and "- (2 ^ 53) \<le> a" and "b + n \<le> 2 ^ 53"
  shows "generateRange_loop (Some (Num a)) (Num b) (Num n) acc
           = Some (acc @ map Num (arith_seq a b n))"
  using assms(2)
proof (induction "nat (b - a + 1)" arbitrary: a acc rule: less_induct)
  case less
  show ?case
  proof (cases "a \<le> b")
    case True
    have "\<bar>a + n\<bar> \<le> 2 ^ 53"
      using True assms(1,3) less.prems by simp
    then have add: "js_add (Num a) (Num n) = Some (Num (a + n))"
      by (simp add: to_number_exact)
    have "nat (b - (a + n) + 1) < nat (b - a + 1)"
      using True assms(1) by simp
    moreover have "- (2 ^ 53) \<le> a + n"
      using assms(1) less.prems by simp
    ultimately have "generateRange_loop (Some (Num (a + n))) (Num b) (Num n) (acc @ [Num a])
                 = Some ((acc @ [Num a]) @ map Num (arith_seq (a + n) b n))"
      using less.hyps by blast
    then show ?thesis
      using True assms(1) add
      by (subst generateRange_loop.simps) (simp add: arith_seq_Cons)
  next
    case False
    then show ?thesis
      using assms(1)
      by (subst generateRange_loop.simps) (simp add: arith_seq_Nil)
  qed
qed

lemma generateRange_exact:
  "0 < n \<Longrightarrow> - (2 ^ 53) \<le> a \<Longrightarrow> b + n \<le> 2 ^ 53 \<Longrightarrow>
     generateRange (Num a) (Num b) (Num n) = Some (map Num (arith_seq a b n))"
  by (simp add: generateRange_def generateRange_loop_exact)

subsection \<open>generateRange on numbers that no longer add\<close>




subsection \<open>Splitting\<close>

lemma js_split_nonempty: "js_split c s \<noteq> []"
  by (induction s) (auto split: list.split)

lemma js_split_before_separator:
  "c \<notin> set a \<Longrightarrow> js_split c (a @ c # b) = a # js_split c b"
  by (induction a) (auto split: list.split)

subsection \<open>The range rule\<close>

text \<open>
  C3. The claim: a range expression \<open>a-b\<close> is rejected when one of its two parts does not
  parse as an integer. The source tests each part with \<^verbatim>\<open>isNaN(parseInt(...))\<close>, which takes
  a leading integer and ignores the text after it, and it reads the first two pieces of
  the split on the hyphen only. So \<^verbatim>\<open>1-5x\<close> expands to 1, ..., 5 and \<^verbatim>\<open>1-2-3\<close> expands to
  1, 2 instead of being rejected, also through \<^verbatim>\<open>parseCronExpression\<close>.
\<close>

theorem parseField_range_accepts_trailing_text:
  "js_split CHR ''-'' ''1-5x'' = [''1'', ''5x'']
   \<and> parseField ''1-5x'' (Num 0) (Num 59) = Some (Inr (map Num [1, 2, 3, 4, 5]))
   \<and> js_split CHR ''-'' ''1-2-3'' = [''1'', ''2'', ''3'']
   \<and> parseField ''1-2-3'' (Num 0) (Num 59) = Some (Inr (map Num [1, 2]))
   \<and> map_option (map_sum id minute) (parseCronExpression (JSString ''1-5x * * * * cmd''))
        = Some (Inr (map Num [1, 2, 3, 4, 5]))"
  by code_simp

subsection \<open>The single value\<close>

text \<open>
  C5. The claim: an expression without star, slash, hyphen and comma is rejected when it
  is not numeric. The source tests it with \<^verbatim>\<open>isNaN(parseInt(...))\<close>, which takes a leading
  integer and ignores the text after it. So \<^verbatim>\<open>5abc\<close> expands to 5 and \<^verbatim>\<open>12.7\<close> expands to 12
  instead of being rejected, also through \<^verbatim>\<open>parseCronExpression\<close>.
\<close>

theorem parseField_single_value_accepts_trailing_text:
  "parseField ''5abc'' (Num 0) (Num 59) = Some (Inr [Num 5])
   \<and> parseField ''12.7'' (Num 0) (Num 59) = Some (Inr [Num 12])
   \<and> map_option (map_sum id minute) (parseCronExpression (JSString ''5abc * * * * cmd''))
        = Some (Inr [Num 5])"
  by code_simp

subsection \<open>The step rule\<close>

text \<open>
  C2. The claim: a step expression is rejected when its step text does not parse as a
  positive integer; otherwise the result is \<open>start, start + n, start + 2n, ...\<close> up to the
  end of the range of its base. The source tests the step and the base with
  \<^verbatim>\<open>isNaN(parseInt(...))\<close>, which ignores the text after a leading integer: \<^verbatim>\<open>*/15x\<close> expands
  as \<^verbatim>\<open>*/15\<close> does, and the base \<^verbatim>\<open>1,*\<close> is read as the start 1. The numbers of the base are
  not compared with the bounds, so they may exceed \<open>2 ^ 53\<close>, where sums are rounded:
  \<^verbatim>\<open>1-9007199254740993/9007199254740992\<close> expands to 1 and \<open>2 ^ 53\<close>, which is not \<open>1 + n\<close>.
\<close>

theorem parseField_step_accepts_trailing_text:
  "parseField ''*/15x'' (Num 0) (Num 59) = Some (Inr (map Num [0, 15, 30, 45]))
   \<and> parseField ''1,*/20'' (Num 0) (Num 59) = Some (Inr (map Num [1, 21, 41]))
   \<and> parseField ''1-9007199254740993/9007199254740992'' (Num 0) (Num 59)
        = Some (Inr [Num 1, Num 9007199254740992])
   \<and> map_option (map_sum id minute) (parseCronExpression (JSString ''*/15x * * * * cmd''))
        = Some (Inr (map Num [0, 15, 30, 45]))"
  by code_simp

text \<open>
  C1. The claim: whenever an expansion succeeds, it is not empty and every value lies
  within the bounds. The range rule and the single-value rule check the bounds; the step
  rule does not. With the bounds 0 and 59 of the minute field, \<^verbatim>\<open>5-100/10\<close> expands to
  values up to 95 and \<^verbatim>\<open>10-5/1\<close> expands to the empty list, also through
  \<^verbatim>\<open>parseCronExpression\<close>. Every expression without slash keeps bounds that are below
  \<open>2 ^ 53\<close> in magnitude (\<open>parseField_without_step_in_bounds\<close> below).
\<close>

theorem parseField_step_out_of_bounds:
  "parseField ''5-100/10'' (Num 0) (Num 59)
     = Some (Inr (map Num [5, 15, 25, 35, 45, 55, 65, 75, 85, 95]))
   \<and> parseField ''10-5/1'' (Num 0) (Num 59) = Some (Inr [])
   \<and> map_option (map_sum id minute) (parseCronExpression (JSString ''5-100/10 * * * * cmd''))
        = Some (Inr (map Num [5, 15, 25, 35, 45, 55, 65, 75, 85, 95]))"
  by code_simp

text \<open>
  C6. The claim: an expansion that succeeds has at most \<open>mx - mn + 1\<close> values, hence at
  most 60 for a field. For the same reason, \<^verbatim>\<open>0-60/1\<close> expands to 61 values in the minute
  field.
\<close>

theorem parseField_step_too_many_values:
  "map_option (map_sum id length) (parseField ''0-60/1'' (Num 0) (Num 59)) = Some (Inr 61)
   \<and> map_option (map_sum id (length \<circ> minute)) (parseCronExpression (JSString ''0-60/1 * * * * cmd''))
        = Some (Inr 61)"
  by code_simp

subsection \<open>The list rule\<close>

lemma sorted_union_all_succeeded:
  assumes "\<forall>r \<in> set rs. succeeded r"
  shows "sorted_union rs = Some (Inr (sorted_list_of_set (\<Union>r \<in> set rs. set (values_of r))))"
proof -
  have f: "find (\<lambda>r. \<not> succeeded r) rs = None"
    using assms by (simp add: find_None_iff)
  have b: "sort (remdups (concat (map values_of rs)))
             = sorted_list_of_set (set (concat (map values_of rs)))"
    by (rule sorted_list_of_set_sort_remdups [symmetric])
  have a: "set (concat (map values_of rs)) = (\<Union>r \<in> set rs. set (values_of r))"
    by simp
  show ?thesis
    unfolding sorted_union_def f b a by simp
qed

lemma foldl_set_add:
  "distinct acc \<Longrightarrow>
     distinct (foldl set_add acc vs) \<and> set (foldl set_add acc vs) = set acc \<union> set vs"
  by (induction vs arbitrary: acc) (auto simp: set_add_def)

lemma addParts_failure:
  "find (\<lambda>r. \<not> succeeded r) rs = Some r \<Longrightarrow>
     addParts rs acc = (case r of Some (Inl e) \<Rightarrow> Some (Inl e) | _ \<Rightarrow> None)"
  by (induction rs arbitrary: acc)
     (auto simp: succeeded_def split: option.splits sum.splits if_splits)

lemma addParts_success:
  "find (\<lambda>r. \<not> succeeded r) rs = None \<Longrightarrow> distinct acc \<Longrightarrow>
     \<exists>vs. addParts rs acc = Some (Inr vs) \<and> distinct vs
          \<and> set vs = set acc \<union> set (concat (map values_of rs))"
proof (induction rs arbitrary: acc)
  case Nil
  then show ?case by (simp add: return_def)
next
  case (Cons r rs)
  from Cons.prems(1) obtain parsedValues where r: "r = Some (Inr parsedValues)"
    and rest: "find (\<lambda>r. \<not> succeeded r) rs = None"
    by (auto simp: succeeded_def split: option.splits sum.splits if_splits)
  have d: "distinct (foldl set_add acc parsedValues)"
    and s: "set (foldl set_add acc parsedValues) = set acc \<union> set parsedValues"
    using foldl_set_add [OF Cons.prems(2)] by auto
  from Cons.IH [OF rest d] obtain vs where
    "addParts rs (foldl set_add acc parsedValues) = Some (Inr vs)" "distinct vs"
    "set vs = set (foldl set_add acc parsedValues) \<union> set (concat (map values_of rs))"
    by blast
  then show ?case
    using r s by (auto simp: values_of_def)
qed

lemma addParts_sorted_union:
  "bind_result (addParts rs []) (\<lambda>values. return (sort values)) = sorted_union rs"
proof (cases "find (\<lambda>r. \<not> succeeded r) rs")
  case (Some r)
  then show ?thesis
    by (auto simp: addParts_failure sorted_union_def bind_result_def split: option.splits sum.splits)
next
  case None
  then obtain vs where vs: "addParts rs [] = Some (Inr vs)" "distinct vs"
    "set vs = set (concat (map values_of rs))"
    using addParts_success [of rs "[]"] by auto
  have "sort vs = sort (remdups (concat (map values_of rs)))"
  proof (rule sorted_distinct_set_unique)
    show "sorted (sort vs)" by simp
    show "distinct (sort vs)" using vs(2) by simp
    show "sorted (sort (remdups (concat (map values_of rs))))" by simp
    show "distinct (sort (remdups (concat (map values_of rs))))" by simp
    show "set (sort vs) = set (sort (remdups (concat (map values_of rs))))"
      using vs(3) by simp
  qed
  then show ?thesis
    using None vs(1) by (simp add: sorted_union_def bind_result_def return_def)
qed

lemma parseField_list_rule:
  assumes "CHR '','' \<in> set e" and "CHR ''/'' \<notin> set e"
  shows "parseField e mn mx
           = sorted_union (map (\<lambda>p. parseField (trim p) mn mx) (js_split CHR '','' e))"
proof -
  have "e \<noteq> ''*''" using assms(1) by auto
  then have "parseField e mn mx = parseList e mn mx"
    using assms by (subst parseField.simps) simp
  then show ?thesis
    by (simp add: parseList.simps addParts_sorted_union)
qed

text \<open>
  C4, amended. An expression with a comma and without slash expands to the sorted,
  deduplicated union of the expansions of its comma-separated elements, each element
  stripped of surrounding white space first and expanded with the same bounds; the
  failure of an element is the failure of the list. For example \<^verbatim>\<open>1,2-5,10\<close> with
  bounds 0 and 59 expands to 1, 2, 3, 4, 5, 10.
\<close>

theorem parseField_list:
  assumes "CHR '','' \<in> set e" and "CHR ''/'' \<notin> set e"
  shows "parseField e mn mx
           = sorted_union (map (\<lambda>p. parseField (trim p) mn mx) (js_split CHR '','' e))"
  using assms by (rule parseField_list_rule)

theorem parseField_list_witness:
  "CHR '','' \<in> set ''1,2-5,10'' \<and> CHR ''/'' \<notin> set ''1,2-5,10''
   \<and> js_split CHR '','' ''1,2-5,10'' = [''1'', ''2-5'', ''10'']
   \<and> sorted_union [parseField ''1'' (Num 0) (Num 59), parseField ''2-5'' (Num 0) (Num 59),
         parseField ''10'' (Num 0) (Num 59)]
        = Some (Inr (map Num [1, 2, 3, 4, 5, 10]))
   \<and> parseField ''1,2-5,10'' (Num 0) (Num 59) = Some (Inr (map Num [1, 2, 3, 4, 5, 10]))"
proof -
  have sp: "js_split CHR '','' ''1,2-5,10'' = [''1'', ''2-5'', ''10'']" by simp
  have tr: "trim ''1'' = ''1''" "trim ''2-5'' = ''2-5''" "trim ''10'' = ''10''"
    by code_simp+
  have su: "sorted_union [parseField ''1'' (Num 0) (Num 59), parseField ''2-5'' (Num 0) (Num 59),
              parseField ''10'' (Num 0) (Num 59)]
              = Some (Inr (map Num [1, 2, 3, 4, 5, 10]))"
    by code_simp
  show ?thesis
    using parseField_list [of "''1,2-5,10''" "Num 0" "Num 59"] by (simp add: sp tr su)
qed

text \<open>
  C4 as stated, with the elements expanded as they stand, fails on \<^verbatim>\<open>"1, *"\<close> with bounds
  0 and 2: the list expands to 0, 1, 2, since the list rule strips the second element to
  \<^verbatim>\<open>*\<close>, while the expansion of the element \<^verbatim>\<open>" *"\<close> itself fails.
\<close>

theorem parseField_list_raw_elements_counterexample:
  "js_split CHR '','' ''1, *'' = [''1'', '' *'']
   \<and> parseField ''1, *'' (Num 0) (Num 2) = Some (Inr (map Num [0, 1, 2]))
   \<and> sorted_union [parseField ''1'' (Num 0) (Num 2), parseField '' *'' (Num 0) (Num 2)]
        = Some (Inl InvalidValue)"
  by code_simp

subsection \<open>The rules that check the bounds\<close>

text \<open>
  An expression without slash is expanded by the wildcard, the range rule, the list rule
  or the single-value rule. With bounds \<open>lo\<close> and \<open>hi\<close> below \<open>2 ^ 53\<close> in magnitude, where
  adding 1 is exact, such a call returns, and whenever it succeeds every value lies
  within \<open>[lo, hi]\<close>, the list is not empty (given \<open>lo \<le> hi\<close>) and it has at most
  \<open>hi - lo + 1\<close> values. So it is the step rule alone that breaks the bounds and that
  may not return.
\<close>

lemma set_js_split_subset: "p \<in> set (js_split c s) \<Longrightarrow> set p \<subseteq> set s"
proof (induction s arbitrary: p)
  case Nil
  then show ?case by simp
next
  case (Cons x xs)
  show ?case
  proof (cases "x = c")
    case True
    then show ?thesis using Cons by auto
  next
    case False
    obtain q qs where q: "js_split c xs = q # qs"
      using js_split_nonempty [of c xs] by (cases "js_split c xs") auto
    then have "p = x # q \<or> p \<in> set qs" using Cons.prems False by simp
    moreover have "set q \<subseteq> set xs" using Cons.IH [of q] q by simp
    moreover have "p \<in> set qs \<Longrightarrow> set p \<subseteq> set xs" using Cons.IH [of p] q by simp
    ultimately show ?thesis by auto
  qed
qed

lemma number_between:
  assumes "Num lo \<le> v" and "v \<le> Num hi"
  obtains k where "v = Num k" and "lo \<le> k" and "k \<le> hi"
  using assms by (cases v) auto

lemma generateRange_unit_step:
  assumes "- (2 ^ 53) \<le> s" and "t < 2 ^ 53"
  shows "generateRange (Num s) (Num t) (Num 1) = Some (map Num [s..t])"
  using assms by (simp add: generateRange_exact arith_seq_one)

lemma parseRange_outcome:
  assumes "- (2 ^ 53) \<le> lo" and "hi < 2 ^ 53"
  shows "(\<exists>err. parseRange e (Num lo) (Num hi) = Some (Inl err))
       \<or> (\<exists>s t. lo \<le> s \<and> s \<le> t \<and> t \<le> hi
              \<and> parseRange e (Num lo) (Num hi) = Some (Inr (map Num [s..t])))"
proof -
  let ?parts = "js_split CHR ''-'' e"
  show ?thesis
  proof (cases "parseInt (toString (element ?parts 0))")
    case None
    then show ?thesis by (simp add: parseRange_def throw_def)
  next
    case start: (Some start)
    show ?thesis
    proof (cases "parseInt (toString (element ?parts 1))")
      case None
      then show ?thesis using start by (simp add: parseRange_def throw_def)
    next
      case en: (Some en)
      show ?thesis
      proof (cases "start < Num lo \<or> en > Num hi \<or> start > en")
        case True
        then show ?thesis using start en by (simp add: parseRange_def throw_def)
      next
        case False
        then have "Num lo \<le> start" "start \<le> en" "en \<le> Num hi" by auto
        then obtain s t where st: "start = Num s" "en = Num t" "lo \<le> s" "s \<le> t" "t \<le> hi"
          by (metis number_between number_order(1) order_trans)
        then have "generateRange start en (Num 1) = Some (map Num [s..t])"
          using assms by (simp add: generateRange_unit_step)
        then have "parseRange e (Num lo) (Num hi) = Some (Inr (map Num [s..t]))"
          using start en False by (simp add: parseRange_def)
        then show ?thesis using st by blast
      qed
    qed
  qed
qed

lemma parseField_simple_outcome:
  assumes "CHR ''/'' \<notin> set e" and "CHR '','' \<notin> set e"
    and "- (2 ^ 53) \<le> lo" and "hi < 2 ^ 53"
  shows "(\<exists>err. parseField e (Num lo) (Num hi) = Some (Inl err))
       \<or> (\<exists>s t. lo \<le> s \<and> t \<le> hi \<and> (lo \<le> hi \<longrightarrow> s \<le> t)
              \<and> parseField e (Num lo) (Num hi) = Some (Inr (map Num [s..t])))"
proof (cases "e = ''*''")
  case True
  then have "parseField e (Num lo) (Num hi) = Some (Inr (map Num [lo..hi]))"
    using assms(3,4) by (subst parseField.simps) (simp add: generateRange_unit_step)
  then show ?thesis by blast
next
  case star: False
  show ?thesis
  proof (cases "CHR ''-'' \<in> set e")
    case True
    then have "parseField e (Num lo) (Num hi) = parseRange e (Num lo) (Num hi)"
      using assms(1,2) star by (subst parseField.simps) simp
    then show ?thesis
      using parseRange_outcome [OF assms(3,4), of e] by auto
  next
    case False
    then have single: "parseField e (Num lo) (Num hi)
        = (case parseInt e of None \<Rightarrow> throw InvalidValue
           | Some v \<Rightarrow> if v < Num lo \<or> v > Num hi then throw InvalidValue else return [v])"
      using assms(1,2) star by (subst parseField.simps) simp
    show ?thesis
    proof (cases "parseInt e")
      case None
      then show ?thesis using single by (simp add: throw_def)
    next
      case (Some v)
      show ?thesis
      proof (cases "v < Num lo \<or> v > Num hi")
        case True
        then show ?thesis using single Some by (simp add: throw_def)
      next
        case False
        then have "Num lo \<le> v" "v \<le> Num hi" by auto
        then obtain k where "v = Num k" "lo \<le> k" "k \<le> hi"
          by (rule number_between)
        then have "parseField e (Num lo) (Num hi) = Some (Inr (map Num [k..k]))"
          using single Some False by (simp add: return_def)
        then show ?thesis using \<open>lo \<le> k\<close> \<open>k \<le> hi\<close> by blast
      qed
    qed
  qed
qed

lemma addParts_returns:
  "\<forall>r \<in> set rs. r \<noteq> None \<Longrightarrow> \<exists>r. addParts rs acc = Some r"
  by (induction rs arbitrary: acc) (auto simp: return_def split: option.split sum.split)

lemma trimmed_part_simple:
  assumes "p \<in> set (js_split CHR '','' e)" and "CHR ''/'' \<notin> set e"
  shows "CHR ''/'' \<notin> set (trim p) \<and> CHR '','' \<notin> set (trim p)"
  using assms set_trim_subset [of p] set_js_split_subset [OF assms(1)]
    js_split_no_separator [OF assms(1)] by blast

lemma parseField_without_step_returns:
  assumes "CHR ''/'' \<notin> set e" and "- (2 ^ 53) \<le> lo" and "hi < 2 ^ 53"
  shows "\<exists>r. parseField e (Num lo) (Num hi) = Some r"
proof (cases "CHR '','' \<in> set e")
  case False
  then show ?thesis
    using parseField_simple_outcome [OF assms(1) _ assms(2,3)] by blast
next
  case True
  let ?rs = "map (\<lambda>p. parseField (trim p) (Num lo) (Num hi)) (js_split CHR '','' e)"
  have "\<forall>r \<in> set ?rs. r \<noteq> None"
  proof
    fix r
    assume "r \<in> set ?rs"
    then obtain p where p: "p \<in> set (js_split CHR '','' e)"
      and r: "r = parseField (trim p) (Num lo) (Num hi)" by auto
    have "CHR ''/'' \<notin> set (trim p)" "CHR '','' \<notin> set (trim p)"
      using trimmed_part_simple [OF p assms(1)] by auto
    then show "r \<noteq> None"
      using parseField_simple_outcome [OF _ _ assms(2,3), of "trim p"] r by auto
  qed
  then obtain r where "addParts ?rs [] = Some r"
    using addParts_returns by blast
  moreover have "parseField e (Num lo) (Num hi) = parseList e (Num lo) (Num hi)"
    using True assms(1) by (subst parseField.simps) auto
  ultimately show ?thesis
    by (cases r) (simp_all add: parseList.simps bind_result_def return_def)
qed

lemma parseField_without_step_in_bounds:
  assumes "CHR ''/'' \<notin> set e" and "- (2 ^ 53) \<le> lo" and "hi < 2 ^ 53"
    and "parseField e (Num lo) (Num hi) = Some (Inr vs)"
  shows "set vs \<subseteq> Num ` {lo..hi} \<and> (lo \<le> hi \<longrightarrow> vs \<noteq> [])
         \<and> int (length vs) \<le> max 0 (hi - lo + 1)"
proof (cases "CHR '','' \<in> set e")
  case False
  then obtain s t where st: "lo \<le> s" "t \<le> hi" "lo \<le> hi \<longrightarrow> s \<le> t" "vs = map Num [s..t]"
    using parseField_simple_outcome [OF assms(1) _ assms(2,3)] assms(4) by auto
  have "set vs \<subseteq> Num ` {lo..hi}" using st by auto
  moreover have "lo \<le> hi \<longrightarrow> vs \<noteq> []" using st by auto
  moreover have "int (length vs) \<le> max 0 (hi - lo + 1)" using st by simp
  ultimately show ?thesis by simp
next
  case True
  let ?parts = "js_split CHR '','' e"
  let ?rs = "map (\<lambda>p. parseField (trim p) (Num lo) (Num hi)) ?parts"
  have su: "sorted_union ?rs = Some (Inr vs)"
    using parseField_list_rule [OF True assms(1), of "Num lo" "Num hi"] assms(4) by simp
  then have none: "find (\<lambda>r. \<not> succeeded r) ?rs = None"
    and vs: "vs = sort (remdups (concat (map values_of ?rs)))"
    by (auto simp: sorted_union_def split: option.splits sum.splits)
  have part: "set (values_of (parseField (trim p) (Num lo) (Num hi))) \<subseteq> Num ` {lo..hi}
              \<and> (lo \<le> hi \<longrightarrow> values_of (parseField (trim p) (Num lo) (Num hi)) \<noteq> [])"
    if p: "p \<in> set ?parts" for p
  proof -
    have "succeeded (parseField (trim p) (Num lo) (Num hi))"
      using none p by (auto simp: find_None_iff)
    then obtain ws where ws: "parseField (trim p) (Num lo) (Num hi) = Some (Inr ws)"
      by (auto simp: succeeded_def split: option.splits sum.splits)
    have "CHR ''/'' \<notin> set (trim p)" "CHR '','' \<notin> set (trim p)"
      using trimmed_part_simple [OF p assms(1)] by auto
    then obtain s t where "lo \<le> s" "t \<le> hi" "lo \<le> hi \<longrightarrow> s \<le> t" "ws = map Num [s..t]"
      using parseField_simple_outcome [OF _ _ assms(2,3), of "trim p"] ws by auto
    then show ?thesis by (auto simp: ws values_of_def)
  qed
  have sub: "set vs \<subseteq> Num ` {lo..hi}"
    using part by (auto simp: vs)
  have ne: "vs \<noteq> []" if "lo \<le> hi"
  proof -
    obtain p ps where "?parts = p # ps"
      using js_split_nonempty [of "CHR '',''" e] by (cases ?parts) auto
    then have p: "p \<in> set ?parts" by simp
    then have "values_of (parseField (trim p) (Num lo) (Num hi)) \<noteq> []"
      using part that by blast
    then obtain x where "x \<in> set (values_of (parseField (trim p) (Num lo) (Num hi)))"
      by (cases "values_of (parseField (trim p) (Num lo) (Num hi))") auto
    then have "x \<in> set vs"
      using p by (auto simp: vs)
    then show ?thesis by auto
  qed
  have "distinct vs" by (simp add: vs)
  then have "length vs = card (set vs)" by (simp add: distinct_card)
  also have "\<dots> \<le> card (Num ` {lo..hi})"
    using sub by (intro card_mono) auto
  also have "\<dots> \<le> card {lo..hi}"
    by (rule card_image_le) simp
  finally have "int (length vs) \<le> max 0 (hi - lo + 1)" by simp
  then show ?thesis using sub ne by simp
qed

subsection \<open>White space around the elements of a list\<close>

lemma trim_padded:
  assumes "\<forall>c \<in> set l. isWhiteSpace c" and "\<forall>c \<in> set r. isWhiteSpace c"
  shows "trim (l @ e @ r) = trim e"
proof -
  have 1: "dropWhile isWhiteSpace (l @ e @ r) = dropWhile isWhiteSpace (e @ r)"
    using assms(1) by (simp add: dropWhile_append2)
  show ?thesis
  proof (cases "\<forall>c \<in> set e. isWhiteSpace c")
    case True
    then have a: "dropWhile isWhiteSpace (e @ r) = []" and b: "dropWhile isWhiteSpace e = []"
      using assms(2) by (auto simp: dropWhile_eq_Nil_conv)
    show ?thesis unfolding trim_def 1 a b by simp
  next
    case False
    then have a: "dropWhile isWhiteSpace (e @ r) = dropWhile isWhiteSpace e @ r"
      by (auto simp: dropWhile_append)
    have b: "dropWhile isWhiteSpace (rev r @ ys) = dropWhile isWhiteSpace ys" for ys
      by (rule dropWhile_append2) (use assms(2) in simp)
    show ?thesis unfolding trim_def 1 a rev_append b by simp
  qed
qed

lemma js_split_without_separator: "c \<notin> set s \<Longrightarrow> js_split c s = [s]"
  by (induction s) auto

lemma js_split_js_join:
  "xs \<noteq> [] \<Longrightarrow> \<forall>x \<in> set xs. c \<notin> set x \<Longrightarrow> js_split c (js_join [c] xs) = xs"
proof (induction "[c]" xs rule: js_join.induct)
  case 1
  then show ?case by simp
next
  case (2 x)
  then show ?case by (simp add: js_split_without_separator)
next
  case (3 x y ys)
  then show ?case by (simp add: js_split_before_separator)
qed

lemma set_js_join:
  "set (js_join sep xs) = (\<Union>x \<in> set xs. set x) \<union> (if 2 \<le> length xs then set sep else {})"
  by (induction sep xs rule: js_join.induct) auto

lemma comma_not_whitespace: "isWhiteSpace c \<Longrightarrow> c \<noteq> CHR '','' \<and> c \<noteq> CHR ''/''"
  by (auto simp: isWhiteSpace_def)

text \<open>
  C9. The list rule strips each comma-separated element of leading and trailing white
  space before it expands it. So a list whose elements \<open>e\<close> are written with white space
  \<open>l\<close> before and \<open>r\<close> after them expands, for all bounds, to what the list of the bare
  elements expands to; for example \<^verbatim>\<open>"1, 2-5"\<close> expands as \<^verbatim>\<open>"1,2-5"\<close> does.
\<close>

theorem parseField_list_padding:
  assumes "2 \<le> length ts"
    and "\<forall>(l, e, r) \<in> set ts. (\<forall>c \<in> set l. isWhiteSpace c) \<and> (\<forall>c \<in> set r. isWhiteSpace c)
            \<and> CHR '','' \<notin> set e \<and> CHR ''/'' \<notin> set e"
  shows "parseField (js_join '','' (map (\<lambda>(l, e, r). l @ e @ r) ts)) mn mx
           = parseField (js_join '','' (map (\<lambda>(l, e, r). e) ts)) mn mx"
proof -
  let ?padded = "map (\<lambda>(l, e, r). l @ e @ r) ts"
  let ?plain = "map (\<lambda>(l, e, r). e) ts"
  have ne: "?padded \<noteq> []" "?plain \<noteq> []" using assms(1) by auto
  have free: "\<forall>x \<in> set ?padded. CHR '','' \<notin> set x \<and> CHR ''/'' \<notin> set x"
    "\<forall>x \<in> set ?plain. CHR '','' \<notin> set x \<and> CHR ''/'' \<notin> set x"
    using assms(2) comma_not_whitespace by fastforce+
  have list_rule: "parseField (js_join '','' xs) mn mx
      = sorted_union (map (\<lambda>p. parseField (trim p) mn mx) xs)"
    if "2 \<le> length xs" and "\<forall>x \<in> set xs. CHR '','' \<notin> set x \<and> CHR ''/'' \<notin> set x" for xs
  proof -
    have "CHR '','' \<in> set (js_join '','' xs)" "CHR ''/'' \<notin> set (js_join '','' xs)"
      using that by (auto simp: set_js_join)
    moreover have "js_split CHR '','' (js_join '','' xs) = xs"
      using that by (intro js_split_js_join) auto
    ultimately show ?thesis
      using parseField_list_rule [of "js_join '','' xs" mn mx] by simp
  qed
  have same: "map (\<lambda>p. parseField (trim p) mn mx) ?padded
                = map (\<lambda>p. parseField (trim p) mn mx) ?plain"
    using assms(2) by (auto simp: trim_padded)
  have len: "2 \<le> length ?padded" "2 \<le> length ?plain"
    using assms(1) by simp_all
  have "parseField (js_join '','' ?padded) mn mx
          = sorted_union (map (\<lambda>p. parseField (trim p) mn mx) ?padded)"
    by (rule list_rule [OF len(1) free(1)])
  also have "\<dots> = sorted_union (map (\<lambda>p. parseField (trim p) mn mx) ?plain)"
    by (simp only: same)
  also have "\<dots> = parseField (js_join '','' ?plain) mn mx"
    by (rule list_rule [OF len(2) free(2), symmetric])
  finally show ?thesis .
qed

theorem parseField_list_padding_witness:
  "js_join '','' (map (\<lambda>(l, e, r). l @ e @ r) [('''', ''1'', ''''), ('' '', ''2-5'', '''')]) = ''1, 2-5''
   \<and> js_join '','' (map (\<lambda>(l, e, r). e) [('''', ''1'', ''''), ('' '', ''2-5'', '''')]) = ''1,2-5''
   \<and> isWhiteSpace CHR '' ''
   \<and> parseField ''1, 2-5'' (Num 0) (Num 59) = parseField ''1,2-5'' (Num 0) (Num 59)
   \<and> parseField ''1,2-5'' (Num 0) (Num 59) = Some (Inr (map Num [1, 2, 3, 4, 5]))"
proof -
  have v: "parseField ''1,2-5'' (Num 0) (Num 59) = Some (Inr (map Num [1, 2, 3, 4, 5]))"
    by code_simp
  have w: "isWhiteSpace CHR '' ''" by (simp add: isWhiteSpace_def)
  show ?thesis
    using parseField_list_padding [of "[('''', ''1'', ''''), ('' '', ''2-5'', '''')]" "Num 0" "Num 59"]
    by (simp add: v w)
qed

subsection \<open>Lines that are rejected\<close>

text \<open>
  C7. \<^verbatim>\<open>parseCronExpression\<close> throws when its argument is the empty string or is not a
  string, and when the trimmed argument, split on runs of white space, has fewer than six
  pieces; in particular on \<^verbatim>\<open>""\<close> and on \<^verbatim>\<open>"* * * *"\<close>.
\<close>

theorem parseCronExpression_rejects:
  "(v = JSString '''' \<or> typeof v \<noteq> ''string''
      \<longrightarrow> parseCronExpression v = Some (Inl CronStringRequired))
   \<and> (s \<noteq> '''' \<and> length (splitWhitespace (trim s)) < 6
      \<longrightarrow> parseCronExpression (JSString s) = Some (Inl InvalidCronExpression))
   \<and> parseCronExpression (JSString '''') = Some (Inl CronStringRequired)
   \<and> parseCronExpression (JSString ''* * * *'') = Some (Inl InvalidCronExpression)"
proof (intro conjI impI)
  assume "v = JSString '''' \<or> typeof v \<noteq> ''string''"
  then show "parseCronExpression v = Some (Inl CronStringRequired)"
    by (cases v) (auto simp: parseCronExpression_def throw_def)
next
  assume "s \<noteq> '''' \<and> length (splitWhitespace (trim s)) < 6"
  then show "parseCronExpression (JSString s) = Some (Inl InvalidCronExpression)"
    by (simp add: parseCronExpression_def throw_def Let_def)
next
  show "parseCronExpression (JSString '''') = Some (Inl CronStringRequired)"
    by (simp add: parseCronExpression_def throw_def)
next
  show "parseCronExpression (JSString ''* * * *'') = Some (Inl InvalidCronExpression)"
    by code_simp
qed

theorem parseCronExpression_rejects_witness:
  "typeof JSUndefined \<noteq> ''string''
   \<and> parseCronExpression JSUndefined = Some (Inl CronStringRequired)
   \<and> ''a b c'' \<noteq> '''' \<and> length (splitWhitespace (trim ''a b c'')) < 6
   \<and> parseCronExpression (JSString ''a b c'') = Some (Inl InvalidCronExpression)"
proof -
  have l: "length (splitWhitespace (trim ''a b c'')) < 6" by code_simp
  show ?thesis
    using parseCronExpression_rejects [of JSUndefined "''a b c''"] l by simp
qed

subsection \<open>The schedule of the README, end to end\<close>

text \<open>
  C8. Parsing \<^verbatim>\<open>*/15 0 1,15 * 1-5 /usr/bin/find\<close> succeeds: the minutes are 0, 15, 30 and 45,
  the hour is 0, the days of the month are 1 and 15, the months are 1 to 12, the days of
  the week are 1 to 5 and the command is \<^verbatim>\<open>/usr/bin/find\<close>. The bounds of the five fields
  are 0 to 59, 0 to 23, 1 to 31, 1 to 12 and 0 to 6.
\<close>

theorem parseCronExpression_readme_example:
  "parseCronExpression (JSString ''*/15 0 1,15 * 1-5 /usr/bin/find'') =
     Some (Inr \<lparr> minute = map Num [0, 15, 30, 45], hour = map Num [0],
                  dayOfMonth = map Num [1, 15],
                  month = map Num [1, 2, 3, 4, 5, 6, 7, 8, 9, 10, 11, 12],
                  dayOfWeek = map Num [1, 2, 3, 4, 5], command = ''/usr/bin/find'' \<rparr>)
   \<and> (cfg_min (cfg_minute FIELD_CONFIG), cfg_max (cfg_minute FIELD_CONFIG)) = (Num 0, Num 59)
   \<and> (cfg_min (cfg_hour FIELD_CONFIG), cfg_max (cfg_hour FIELD_CONFIG)) = (Num 0, Num 23)
   \<and> (cfg_min (cfg_dayOfMonth FIELD_CONFIG), cfg_max (cfg_dayOfMonth FIELD_CONFIG)) = (Num 1, Num 31)
   \<and> (cfg_min (cfg_month FIELD_CONFIG), cfg_max (cfg_month FIELD_CONFIG)) = (Num 1, Num 12)
   \<and> (cfg_min (cfg_dayOfWeek FIELD_CONFIG), cfg_max (cfg_dayOfWeek FIELD_CONFIG)) = (Num 0, Num 6)"
  by code_simp

end
